theory Spec2Isabelle
  imports Main "HOL-Library.Sublist" "HOL-Library.Multiset"
begin

section \<open>Python strings\<close>

text \<open>
  A Python \<open>str\<close> is modelled as a \<open>string\<close>, one \<open>char\<close> per code point (code points
  below 256). The functions below are the \<open>str\<close> methods that \<open>app.py\<close> calls.
\<close>

definition nl :: char where
  "nl = CHR 0x0A"

text \<open>\<open>sep.join(lines)\<close>\<close>

fun join :: "string \<Rightarrow> string list \<Rightarrow> string" where
  "join sep [] = []"
| "join sep [x] = x"
| "join sep (x # y # ys) = x @ sep @ join sep (y # ys)"

text \<open>
  \<open>s.replace(old, new)\<close>: one scan from the left; at each position where \<open>old\<close> starts,
  \<open>new\<close> is emitted and the scan resumes after the occurrence. The text put together by a
  replacement is not scanned again.
\<close>

function replace_from :: "string \<Rightarrow> string \<Rightarrow> string \<Rightarrow> string" where
  "replace_from old new [] = []"
| "replace_from old new (c # cs) =
     (if old \<noteq> [] \<and> prefix old (c # cs)
      then new @ replace_from old new (drop (length old) (c # cs))
      else c # replace_from old new cs)"
  by pat_completeness auto
termination
  by (relation "measure (\<lambda>(old, new, s). length s)") (auto simp: neq_Nil_conv)

definition str_replace :: "string \<Rightarrow> string \<Rightarrow> string \<Rightarrow> string" where
  "str_replace s old new =
     (if old = [] then new @ concat (map (\<lambda>c. c # new) s) else replace_from old new s)"

text \<open>\<open>c.isspace()\<close> on the code points below 256, and \<open>s.strip()\<close>.\<close>

definition isspace :: "char \<Rightarrow> bool" where
  "isspace c = (c \<in> set [CHR 0x09, CHR 0x0A, CHR 0x0B, CHR 0x0C, CHR 0x0D,
                          CHR 0x1C, CHR 0x1D, CHR 0x1E, CHR 0x1F, CHR 0x20,
                          CHR 0x85, CHR 0xA0])"

definition strip :: "string \<Rightarrow> string" where
  "strip s = rev (dropWhile isspace (rev (dropWhile isspace s)))"

text \<open>\<open>str(n)\<close> for an \<open>int\<close>, as an f-string renders it.\<close>

definition digit_char :: "nat \<Rightarrow> char" where
  "digit_char d = ''0123456789'' ! d"

function str_nat :: "nat \<Rightarrow> string" where
  "str_nat n = (if n < 10 then [digit_char n] else str_nat (n div 10) @ [digit_char (n mod 10)])"
  by pat_completeness auto
termination
  by (relation "measure id") auto

declare str_nat.simps [simp del]

definition str_int :: "int \<Rightarrow> string" where
  "str_int i = (if i < 0 then CHR ''-'' # str_nat (nat (- i)) else str_nat (nat i))"

text \<open>\<open>xs[-k:]\<close> for a positive \<open>k\<close>: the last \<open>k\<close> items (all of them when there are fewer).\<close>

definition last_items :: "nat \<Rightarrow> 'a list \<Rightarrow> 'a list" where
  "last_items k xs = drop (length xs - k) xs"

section \<open>\<open>BotDatabase\<close>\<close>

text \<open>
  The two tables of \<open>_init_schema\<close>. \<open>users\<close> has the primary key \<open>user_id\<close>: a map from
  the key to the other columns. \<open>messages\<close> is append only with an autoincrement key: the
  list of its rows in insertion order. The \<open>is_bot\<close> columns are INTEGER.
\<close>

record user_row =
  u_username :: string
  u_discriminator :: "string option"
  u_is_bot :: int
  u_first_seen_at :: int
  u_last_seen_at :: int
  u_message_count :: int
  u_mention_count :: int

record msg_row =
  m_ts :: int
  m_user_id :: "int option"
  m_username :: string
  m_guild_id :: "int option"
  m_channel_id :: "int option"
  m_message_id :: "int option"
  m_is_bot :: int
  m_content :: string

record bot_db =
  users :: "int \<rightharpoonup> user_row"
  messages :: "msg_row list"

definition flag :: "bool \<Rightarrow> int" where
  "flag b = (if b then 1 else 0)"

text \<open>
  \<open>upsert_user\<close>: INSERT, and ON CONFLICT(user_id) DO UPDATE of every column but
  \<open>first_seen_at\<close>, the two counters growing by the flags.
\<close>

definition upsert_user ::
  "bot_db \<Rightarrow> int \<Rightarrow> string \<Rightarrow> string option \<Rightarrow> bool \<Rightarrow> int \<Rightarrow> bool \<Rightarrow> bool \<Rightarrow> bot_db" where
  "upsert_user d user_id username discriminator is_bot now_ts increment_message increment_mention =
     (case users d user_id of
        None \<Rightarrow>
          d\<lparr>users := (users d)(user_id \<mapsto>
             \<lparr>u_username = username, u_discriminator = discriminator, u_is_bot = flag is_bot,
              u_first_seen_at = now_ts, u_last_seen_at = now_ts,
              u_message_count = flag increment_message,
              u_mention_count = flag increment_mention\<rparr>)\<rparr>
      | Some row \<Rightarrow>
          d\<lparr>users := (users d)(user_id \<mapsto>
             row\<lparr>u_username := username, u_discriminator := discriminator,
                 u_is_bot := flag is_bot, u_last_seen_at := now_ts,
                 u_message_count := u_message_count row + flag increment_message,
                 u_mention_count := u_mention_count row + flag increment_mention\<rparr>)\<rparr>)"

definition log_message ::
  "bot_db \<Rightarrow> int \<Rightarrow> int option \<Rightarrow> string \<Rightarrow> int option \<Rightarrow> int option \<Rightarrow> int option \<Rightarrow> bool
     \<Rightarrow> string \<Rightarrow> bot_db" where
  "log_message d ts user_id username guild_id channel_id message_id is_bot content =
     d\<lparr>messages := messages d @
        [\<lparr>m_ts = ts, m_user_id = user_id, m_username = username, m_guild_id = guild_id,
          m_channel_id = channel_id, m_message_id = message_id, m_is_bot = flag is_bot,
          m_content = content\<rparr>]\<rparr>"

text \<open>
  The SELECT of \<open>get_recent_messages_for_channel\<close>: the rows of the channel, ORDER BY ts
  DESC, LIMIT. Rows of equal \<open>ts\<close> come newest insertion first (SQLite walks the index
  \<open>idx_messages_channel_ts\<close> backwards); a negative LIMIT is no limit.
\<close>

definition channel_rows :: "msg_row list \<Rightarrow> int \<Rightarrow> msg_row list" where
  "channel_rows tbl channel_id = filter (\<lambda>r. m_channel_id r = Some channel_id) tbl"

definition select_recent :: "msg_row list \<Rightarrow> int \<Rightarrow> int \<Rightarrow> msg_row list" where
  "select_recent tbl channel_id limit =
     (let ordered = rev (sort_key m_ts (channel_rows tbl channel_id))
      in if limit < 0 then ordered else take (nat limit) ordered)"

definition render_row :: "msg_row \<Rightarrow> string" where
  "render_row row =
     (if m_is_bot row \<noteq> 0 then ''Bot'' else m_username row) @ '': '' @ m_content row"

definition get_recent_messages_for_channel :: "bot_db \<Rightarrow> int \<Rightarrow> int \<Rightarrow> string list" where
  "get_recent_messages_for_channel d channel_id limit =
     map render_row (rev (select_recent (messages d) channel_id limit))"

section \<open>\<open>DiscordChatBot\<close>\<close>

record discord_user =
  du_id :: int
  du_name :: string
  du_discriminator :: "string option"
  du_bot :: bool

text \<open>
  An incoming message event. \<open>mentions_bot\<close> is what \<open>self.bot.user.mentioned_in(message)\<close>
  answers for it.
\<close>

record message =
  author :: discord_user
  content :: string
  guild :: "int option"
  channel :: "int option"
  msg_id :: int
  mentions_bot :: bool

text \<open>
  The state of the bot object. \<open>sent\<close> and \<open>requests\<close> are the effects on the two
  collaborators: the texts delivered by \<open>channel.send\<close> with their channel, and the
  (system content, user content) pairs passed to \<open>chat.completions.create\<close>.
\<close>

record bot_state =
  bot_user :: "discord_user option"
  bot_personality :: string
  global_message_memory :: "string list"
  db :: bot_db
  sent :: "(int option \<times> string) list"
  requests :: "(string \<times> string) list"

subsection \<open>\<open>_build_prompt\<close>\<close>

definition build_prompt :: "bot_state \<Rightarrow> string \<Rightarrow> string \<Rightarrow> string \<Rightarrow> string" where
  "build_prompt st author_name message_content context =
     (let memory_length = length (global_message_memory st) in
      if memory_length mod 5 = 0 \<or> memory_length = 1 then
        ''Previous conversation context:'' @ [nl] @ context @ [nl] @
        ''You are: '' @ bot_personality st @ [nl] @
        ''Respond to '' @ author_name @ '' in first person. Stay in character.''
      else if memory_length > 40 then
        ''Previous conversation context:'' @ [nl] @ context @ [nl] @
        ''You are: '' @ bot_personality st @ [nl] @
        ''You will never admit to being an AI. You are currently annoyed. '' @
        ''Respond to '' @ author_name @ '' in first person with a slightly irritated tone.''
      else
        ''Previous conversation context:'' @ [nl] @ context @ [nl] @
        ''You are: '' @ bot_personality st @ [nl] @
        ''You will never admit to being an AI. Respond to '' @ author_name @
        '' in first person.'')"

subsection \<open>The collaborators' answers\<close>

text \<open>
  What the outside world answers while one message is handled: the clock, whether each
  database call raises, what the completion API returns, whether a delivery to the channel
  raises. \<open>completion\<close> is \<open>Inl\<close> when \<open>chat.completions.create\<close> raises or the
  response has no text at \<open>choices[0].message.content\<close>, and \<open>Inr\<close> of that text otherwise.
\<close>

datatype exn = DbError | ApiError | SendError | AttributeError

datatype db_outcome = DbOk | UpsertRaises | LogRaises

record env =
  now_ts :: int
  db_log_incoming :: db_outcome
  db_read_raises :: bool
  completion :: "exn + string"
  send_reply_raises :: bool
  reply_ts :: int
  db_log_reply :: db_outcome
  send_apology_raises :: bool

text \<open>
  \<open>try: upsert_user(...); log_message(...) except Exception: logging.error(...)\<close>: each
  call commits by itself, so a failure of the second keeps the first.
\<close>

definition try_log :: "db_outcome \<Rightarrow> (bot_db \<Rightarrow> bot_db) \<Rightarrow> (bot_db \<Rightarrow> bot_db) \<Rightarrow> bot_db \<Rightarrow> bot_db" where
  "try_log outcome upsert log d =
     (case outcome of
        UpsertRaises \<Rightarrow> d
      | LogRaises \<Rightarrow> upsert d
      | DbOk \<Rightarrow> log (upsert d))"

text \<open>\<open>await message.channel.send(text)\<close>; without a channel the attribute access raises.\<close>

definition channel_send :: "bool \<Rightarrow> bot_state \<Rightarrow> message \<Rightarrow> string \<Rightarrow> exn + bot_state" where
  "channel_send raises st msg text =
     (case channel msg of
        None \<Rightarrow> Inl AttributeError
      | Some c \<Rightarrow>
          if raises then Inl SendError else Inr (st\<lparr>sent := sent st @ [(Some c, text)]\<rparr>))"

subsection \<open>\<open>_generate_response\<close>\<close>

text \<open>Lines 327 to 335: the transcript of the channel, or the tail of the memory.\<close>

definition context_lines :: "env \<Rightarrow> bot_state \<Rightarrow> message \<Rightarrow> string list" where
  "context_lines e st msg =
     (let from_db =
            (case channel msg of
               None \<Rightarrow> []
             | Some c \<Rightarrow>
                 if db_read_raises e then []
                 else get_recent_messages_for_channel (db st) c 100)
      in if from_db = [] then last_items 100 (global_message_memory st) else from_db)"

definition mention_plain :: "int \<Rightarrow> string" where
  "mention_plain uid = ''<@'' @ str_int uid @ ''>''"

definition mention_nick :: "int \<Rightarrow> string" where
  "mention_nick uid = ''<@!'' @ str_int uid @ ''>''"

text \<open>Line 338.\<close>

definition clean_message :: "int \<Rightarrow> string \<Rightarrow> string" where
  "clean_message bot_id text =
     strip (str_replace (str_replace text (mention_plain bot_id) []) (mention_nick bot_id) [])"

definition error_message :: string where
  "error_message = ''Sorry, there was an error processing your request.''"

text \<open>The handler of line 385; an exception of its own \<open>send\<close> leaves the function.\<close>

definition apologise :: "env \<Rightarrow> bot_state \<Rightarrow> message \<Rightarrow> bot_state \<times> exn option" where
  "apologise e st msg =
     (case channel_send (send_apology_raises e) st msg error_message of
        Inl err \<Rightarrow> (st, Some err)
      | Inr st' \<Rightarrow>
          (st'\<lparr>global_message_memory :=
                 global_message_memory st' @ [''Bot: '' @ error_message]\<rparr>, None))"

definition log_reply :: "env \<Rightarrow> discord_user \<Rightarrow> message \<Rightarrow> string \<Rightarrow> bot_db \<Rightarrow> bot_db" where
  "log_reply e me msg response_text =
     try_log (db_log_reply e)
       (\<lambda>d. upsert_user d (du_id me) (du_name me) (du_discriminator me) True (reply_ts e)
              True False)
       (\<lambda>d. log_message d (reply_ts e) (Some (du_id me)) (du_name me) (guild msg)
              (channel msg) None True response_text)"

definition generate_response :: "env \<Rightarrow> bot_state \<Rightarrow> message \<Rightarrow> bot_state \<times> exn option" where
  "generate_response e st msg =
     (case bot_user st of
        None \<Rightarrow> (st, Some AttributeError)
      | Some me \<Rightarrow>
          let context = join [nl] (context_lines e st msg);
              clean = clean_message (du_id me) (content msg);
              prompt = build_prompt st (du_name (author msg)) clean context;
              st1 = st\<lparr>requests := requests st @ [(prompt, clean)]\<rparr>
          in case completion e of
               Inl err \<Rightarrow> apologise e st1 msg
             | Inr text \<Rightarrow>
                 let response_text = strip text
                 in case channel_send (send_reply_raises e) st1 msg response_text of
                      Inl err \<Rightarrow> apologise e st1 msg
                    | Inr st2 \<Rightarrow>
                        (st2\<lparr>global_message_memory :=
                               global_message_memory st2 @ [''Bot: '' @ response_text],
                             db := log_reply e me msg response_text (db st2)\<rparr>, None))"

subsection \<open>\<open>_handle_message\<close>\<close>

definition log_incoming :: "env \<Rightarrow> message \<Rightarrow> bot_db \<Rightarrow> bot_db" where
  "log_incoming e msg =
     try_log (db_log_incoming e)
       (\<lambda>d. upsert_user d (du_id (author msg)) (du_name (author msg))
              (du_discriminator (author msg)) (du_bot (author msg)) (now_ts e)
              True (mentions_bot msg))
       (\<lambda>d. log_message d (now_ts e) (Some (du_id (author msg))) (du_name (author msg))
              (guild msg) (channel msg) (Some (msg_id msg)) False (content msg))"

text \<open>Lines 314 to 319: append, then one \<open>pop(0)\<close> when the length is above 100.\<close>

definition remember :: "string list \<Rightarrow> string \<Rightarrow> string list" where
  "remember memory line =
     (let memory' = memory @ [line]
      in if length memory' > 100 then tl memory' else memory')"

definition handle_message :: "env \<Rightarrow> bot_state \<Rightarrow> message \<Rightarrow> bot_state \<times> exn option" where
  "handle_message e st msg =
     (case bot_user st of
        None \<Rightarrow> (st, None)
      | Some me \<Rightarrow>
          if du_id (author msg) = du_id me then (st, None)
          else
            let st1 = st\<lparr>db := log_incoming e msg (db st),
                         global_message_memory :=
                           remember (global_message_memory st)
                             (du_name (author msg) @ '': '' @ content msg)\<rparr>
            in if mentions_bot msg then generate_response e st1 msg else (st1, None))"

text \<open>
  The event loop: one message after the other; an exception that leaves a handler is
  logged by the client library and the next event is delivered.
\<close>

fun run :: "(env \<times> message) list \<Rightarrow> bot_state \<Rightarrow> bot_state" where
  "run [] st = st"
| "run ((e, msg) # events) st = run events (fst (handle_message e st msg))"

section \<open>The vocabulary of the specification\<close>

text \<open>
  The three tones of the Prompt Builder and its selection rule, in the words of the
  specification: Refreshed when the counter is 1 or a multiple of 5, otherwise Irritated
  above 40, otherwise Standard. \<open>instruction\<close> is the instruction text of a tone.
\<close>

datatype tone = Refreshed | Irritated | Standard

definition tone_of_counter :: "nat \<Rightarrow> tone" where
  "tone_of_counter n =
     (if n = 1 \<or> n mod 5 = 0 then Refreshed else if n > 40 then Irritated else Standard)"

definition directive :: "tone \<Rightarrow> string \<Rightarrow> string" where
  "directive t author_name =
     (case t of
        Refreshed \<Rightarrow> ''Respond to '' @ author_name @ '' in first person. Stay in character.''
      | Irritated \<Rightarrow>
          ''You will never admit to being an AI. You are currently annoyed. Respond to '' @
          author_name @ '' in first person with a slightly irritated tone.''
      | Standard \<Rightarrow>
          ''You will never admit to being an AI. Respond to '' @ author_name @
          '' in first person.'')"

definition instruction :: "tone \<Rightarrow> string \<Rightarrow> string \<Rightarrow> string \<Rightarrow> string" where
  "instruction t author_name context persona =
     ''Previous conversation context:'' @ [nl] @ context @ [nl] @
     ''You are: '' @ persona @ [nl] @ directive t author_name"

section \<open>When a single scan removes every mention\<close>

text \<open>
  The condition under which the two single scans of line 338 leave no mention markup.
  \<open>harmless form_tail s\<close>: the text \<open>s\<close> after a \<open><\<close> departs from the rest of the form, or
  ends, before its next \<open><\<close>. \<open>guarded starts forms s\<close>: every \<open><\<close> of \<open>s\<close> begins one of
  \<open>starts\<close>, or is harmless for every form. \<open>well_nested\<close>: that, for the two forms of the
  bot's mention.
\<close>

definition lt :: char where
  "lt = CHR ''<''"

fun harmless :: "string \<Rightarrow> string \<Rightarrow> bool" where
  "harmless [] text = False"
| "harmless (a # as) [] = True"
| "harmless (a # as) (x # xs) =
     (if x = lt then False else if x = a then harmless as xs else True)"

fun guarded :: "string list \<Rightarrow> string list \<Rightarrow> string \<Rightarrow> bool" where
  "guarded starts forms [] = True"
| "guarded starts forms (c # cs) =
     ((if c = lt
       then list_ex (\<lambda>t. prefix t (c # cs)) starts \<or> list_all (\<lambda>t. harmless (tl t) cs) forms
       else True) \<and>
      guarded starts forms cs)"

definition well_nested :: "int \<Rightarrow> string \<Rightarrow> bool" where
  "well_nested bot_id text =
     guarded [mention_plain bot_id, mention_nick bot_id]
       [mention_plain bot_id, mention_nick bot_id] text"

section \<open>Example inputs\<close>

definition floppa :: discord_user where
  "floppa = \<lparr>du_id = 123, du_name = ''Floppa'', du_discriminator = None, du_bot = True\<rparr>"

definition alice :: discord_user where
  "alice = \<lparr>du_id = 7, du_name = ''Alice'', du_discriminator = None, du_bot = False\<rparr>"

definition fresh_state :: bot_state where
  "fresh_state =
     \<lparr>bot_user = Some floppa, bot_personality = ''I am Big Floppa.'',
      global_message_memory = [], db = \<lparr>users = Map.empty, messages = []\<rparr>,
      sent = [], requests = []\<rparr>"

definition calm_env :: env where
  "calm_env =
     \<lparr>now_ts = 10, db_log_incoming = DbOk, db_read_raises = False,
      completion = Inr ''meow'', send_reply_raises = False, reply_ts = 11,
      db_log_reply = DbOk, send_apology_raises = False\<rparr>"

definition plain_message :: message where
  "plain_message =
     \<lparr>author = alice, content = ''hello'', guild = None, channel = Some 5,
      msg_id = 1, mentions_bot = False\<rparr>"

definition mention_message :: message where
  "mention_message =
     \<lparr>author = alice, content = ''<@123> hi'', guild = None, channel = Some 5,
      msg_id = 2, mentions_bot = True\<rparr>"

definition chatty_state :: bot_state where
  "chatty_state = fresh_state\<lparr>global_message_memory := replicate 46 ''Alice: hello''\<rparr>"

text \<open>The state after 99 plain messages and a hundredth that mentions the bot.\<close>

definition saturated_state :: bot_state where
  "saturated_state =
     run (replicate 99 (calm_env, plain_message) @ [(calm_env, mention_message)]) fresh_state"

definition failing_env :: env where
  "failing_env = calm_env\<lparr>completion := Inl ApiError\<rparr>"

definition broken_env :: env where
  "broken_env = failing_env\<lparr>send_apology_raises := True\<rparr>"

definition logged_state :: bot_state where
  "logged_state =
     fresh_state\<lparr>global_message_memory := [''Bob: hey'', ''Alice: hello''],
                 db := log_message (db fresh_state) 10 (Some 7) ''Alice'' None (Some 5) (Some 1)
                         False ''hello''\<rparr>"

definition two_channels :: bot_db where
  "two_channels =
     log_message
       (log_message
          (log_message
             (log_message (db fresh_state) 30 (Some 7) ''Alice'' None (Some 5) (Some 1) False ''third'')
             10 (Some 8) ''Bob'' None (Some 5) (Some 2) False ''first'')
          20 (Some 123) ''Floppa'' None (Some 5) None True ''second'')
       15 (Some 8) ''Bob'' None (Some 6) (Some 3) False ''elsewhere''"

definition nested_message :: message where
  "nested_message = mention_message\<lparr>content := ''<@<@123>123>''\<rparr>"

definition busy_message :: message where
  "busy_message = mention_message\<lparr>content := ''  hi <@123> there <@!123> <3 <@456> ''\<rparr>"

text \<open>
  Two states that differ only in the text of the last line of the memory: the fresh bot
  after Alice's \<open><@123> hi\<close>, and after her \<open><@123> bye\<close>.
\<close>

definition heard_hi :: bot_state where
  "heard_hi =
     fresh_state\<lparr>global_message_memory :=
       remember (global_message_memory fresh_state) ''Alice: <@123> hi''\<rparr>"

definition heard_bye :: bot_state where
  "heard_bye =
     fresh_state\<lparr>global_message_memory :=
       remember (global_message_memory fresh_state) ''Alice: <@123> bye''\<rparr>"

section \<open>Properties\<close>

subsection \<open>The handlers, step by step\<close>

lemma length_remember:
  "length (remember mem line) = (if length mem < 100 then Suc (length mem) else length mem)"
  by (simp add: remember_def Let_def)

lemma handle_plain:
  assumes "bot_user st = Some me" "du_id (author msg) \<noteq> du_id me" "\<not> mentions_bot msg"
  shows "fst (handle_message e st msg) =
           st\<lparr>db := log_incoming e msg (db st),
              global_message_memory :=
                remember (global_message_memory st) (du_name (author msg) @ '': '' @ content msg)\<rparr>"
  using assms by (simp add: handle_message_def Let_def)

lemma handle_mention:
  assumes "bot_user st = Some me" "du_id (author msg) \<noteq> du_id me" "mentions_bot msg"
  shows "handle_message e st msg =
           generate_response e
             (st\<lparr>db := log_incoming e msg (db st),
                 global_message_memory :=
                   remember (global_message_memory st)
                     (du_name (author msg) @ '': '' @ content msg)\<rparr>) msg"
  using assms by (simp add: handle_message_def Let_def)

lemma generate_reply:
  assumes "bot_user st = Some me" "completion e = Inr reply" "channel msg = Some c"
    "\<not> send_reply_raises e"
  shows "generate_response e st msg =
     (st\<lparr>requests := requests st @
            [(build_prompt st (du_name (author msg)) (clean_message (du_id me) (content msg))
                (join [nl] (context_lines e st msg)),
              clean_message (du_id me) (content msg))],
         sent := sent st @ [(Some c, strip reply)],
         global_message_memory := global_message_memory st @ [''Bot: '' @ strip reply],
         db := log_reply e me msg (strip reply) (db st)\<rparr>, None)"
  using assms
  by (simp add: generate_response_def Let_def channel_send_def build_prompt_def)

lemma generate_request:
  assumes "bot_user st = Some me"
  shows "requests (fst (generate_response e st msg)) =
     requests st @
       [(build_prompt st (du_name (author msg)) (clean_message (du_id me) (content msg))
           (join [nl] (context_lines e st msg)),
         clean_message (du_id me) (content msg))]"
  using assms
  by (simp add: generate_response_def apologise_def channel_send_def Let_def build_prompt_def
      split: option.splits sum.splits)

lemma run_append: "run (xs @ ys) st = run ys (run xs st)"
  by (induction xs arbitrary: st) auto


subsection \<open>Tone selection\<close>

lemma build_prompt_instruction:
  "build_prompt st author_name message_content context =
     instruction (tone_of_counter (length (global_message_memory st))) author_name context
       (bot_personality st)"
  by (simp add: build_prompt_def instruction_def directive_def tone_of_counter_def Let_def)

lemma directive_inj: "(directive t a = directive t' a) = (t = t')"
  by (cases t; cases t') (simp_all add: directive_def)

lemma instruction_inj: "(instruction t a c p = instruction t' a c p) = (t = t')"
  by (simp add: instruction_def directive_inj)

lemma handle_request:
  assumes "bot_user st = Some me" "du_id (author msg) \<noteq> du_id me" "mentions_bot msg"
  shows "\<exists>ctx. map fst (requests (fst (handle_message e st msg))) =
           map fst (requests st) @
             [instruction
                (tone_of_counter
                   (length (remember (global_message_memory st)
                              (du_name (author msg) @ '': '' @ content msg))))
                (du_name (author msg)) ctx (bot_personality st)]"
proof -
  let ?st1 = "st\<lparr>db := log_incoming e msg (db st),
                 global_message_memory :=
                   remember (global_message_memory st)
                     (du_name (author msg) @ '': '' @ content msg)\<rparr>"
  have h: "handle_message e st msg = generate_response e ?st1 msg"
    using assms by (rule handle_mention)
  have b: "bot_user ?st1 = Some me" using assms(1) by simp
  show ?thesis
    unfolding h generate_request[OF b] by (simp add: build_prompt_instruction) blast
qed

text \<open>
  C1. The instruction that \<open>_build_prompt\<close> returns is the instruction of the tone that the
  specification's rule selects for the length \<open>n\<close> of the memory: Refreshed when \<open>n = 1\<close> or
  \<open>n mod 5 = 0\<close>, otherwise Irritated when \<open>n > 40\<close>, otherwise Standard. The instructions of
  different tones differ, so the tone is a function of \<open>n\<close> alone; Refreshed wins over
  Irritated at 45 and 50, the counters 41 to 44 and 46 to 49 give Irritated, and 2, 3, 4,
  6, 7, 8, 9 give Standard. When a message of another user mentions the bot, \<open>n\<close> is the
  length of the memory after the line of that message has been appended.
\<close>

theorem tone_selection:
  "build_prompt st author_name message_content context =
     instruction (tone_of_counter (length (global_message_memory st))) author_name context
       (bot_personality st) \<and>
   tone_of_counter n =
     (if n = 1 \<or> n mod 5 = 0 then Refreshed else if n > 40 then Irritated else Standard) \<and>
   (instruction t author_name context persona = instruction t' author_name context persona)
     = (t = t') \<and>
   list_all (\<lambda>k. tone_of_counter k = Refreshed) [1, 5, 10, 45, 50] \<and>
   list_all (\<lambda>k. tone_of_counter k = Irritated) [41, 42, 43, 44, 46, 47, 48, 49] \<and>
   list_all (\<lambda>k. tone_of_counter k = Standard) [2, 3, 4, 6, 7, 8, 9] \<and>
   (bot_user st = Some me \<and> du_id (author msg) \<noteq> du_id me \<and> mentions_bot msg \<longrightarrow>
      (\<exists>ctx. map fst (requests (fst (handle_message e st msg))) =
         map fst (requests st) @
           [instruction
              (tone_of_counter
                 (length (remember (global_message_memory st)
                            (du_name (author msg) @ '': '' @ content msg))))
              (du_name (author msg)) ctx (bot_personality st)]))"
proof -
  have "list_all (\<lambda>k. tone_of_counter k = Refreshed) [1, 5, 10, 45, 50]"
    and "list_all (\<lambda>k. tone_of_counter k = Irritated) [41, 42, 43, 44, 46, 47, 48, 49]"
    and "list_all (\<lambda>k. tone_of_counter k = Standard) [2, 3, 4, 6, 7, 8, 9]"
    by (simp_all add: tone_of_counter_def)
  moreover have "tone_of_counter n =
     (if n = 1 \<or> n mod 5 = 0 then Refreshed else if n > 40 then Irritated else Standard)"
    by (simp add: tone_of_counter_def)
  ultimately show ?thesis
    using build_prompt_instruction instruction_inj handle_request
    by (intro conjI impI) blast+
qed

theorem tone_selection_witness:
  "build_prompt chatty_state ''Alice'' ''hi'' ''Alice: hello'' =
     ''Previous conversation context:'' @ [nl] @ ''Alice: hello'' @ [nl] @
     ''You are: I am Big Floppa.'' @ [nl] @
     ''You will never admit to being an AI. You are currently annoyed. '' @
     ''Respond to Alice in first person with a slightly irritated tone.'' \<and>
   (\<exists>ctx. map fst (requests (fst (handle_message calm_env chatty_state mention_message))) =
      [instruction Irritated ''Alice'' ctx ''I am Big Floppa.''])"
proof -
  have pre: "bot_user chatty_state = Some floppa \<and>
      du_id (author mention_message) \<noteq> du_id floppa \<and> mentions_bot mention_message"
    by (simp add: chatty_state_def fresh_state_def mention_message_def alice_def floppa_def)
  have n: "length (remember (global_message_memory chatty_state)
             (du_name (author mention_message) @ '': '' @ content mention_message)) = 47"
    by (simp add: length_remember chatty_state_def)
  have "build_prompt chatty_state ''Alice'' ''hi'' ''Alice: hello'' =
     instruction (tone_of_counter (length (global_message_memory chatty_state))) ''Alice''
       ''Alice: hello'' (bot_personality chatty_state)"
    using tone_selection [of chatty_state] by blast
  then have a: "build_prompt chatty_state ''Alice'' ''hi'' ''Alice: hello'' =
     ''Previous conversation context:'' @ [nl] @ ''Alice: hello'' @ [nl] @
     ''You are: I am Big Floppa.'' @ [nl] @
     ''You will never admit to being an AI. You are currently annoyed. '' @
     ''Respond to Alice in first person with a slightly irritated tone.''"
    by (simp add: instruction_def directive_def fresh_state_def chatty_state_def
        tone_of_counter_def)
  have "\<exists>ctx. map fst (requests (fst (handle_message calm_env chatty_state mention_message))) =
         map fst (requests chatty_state) @
           [instruction
              (tone_of_counter
                 (length (remember (global_message_memory chatty_state)
                            (du_name (author mention_message) @ '': '' @
                             content mention_message))))
              (du_name (author mention_message)) ctx (bot_personality chatty_state)]"
    using tone_selection [of chatty_state _ _ _ _ _ _ _ floppa mention_message calm_env] pre
    by blast
  then have b: "\<exists>ctx. map fst
        (requests (fst (handle_message calm_env chatty_state mention_message))) =
      [instruction Irritated ''Alice'' ctx ''I am Big Floppa.'']"
    unfolding n
    by (simp add: tone_of_counter_def chatty_state_def fresh_state_def mention_message_def
        alice_def)
  from a b show ?thesis by (intro conjI)
qed

subsection \<open>The memory and its bound\<close>

lemma run_plain:
  assumes "bot_user st = Some me" "du_id (author msg) \<noteq> du_id me" "\<not> mentions_bot msg"
    "length (global_message_memory st) + n \<le> 100"
  shows "bot_user (run (replicate n (e, msg)) st) = Some me \<and>
         length (global_message_memory (run (replicate n (e, msg)) st)) =
           length (global_message_memory st) + n \<and>
         requests (run (replicate n (e, msg)) st) = requests st"
  using assms
proof (induction n arbitrary: st)
  case 0
  then show ?case by simp
next
  case (Suc n)
  let ?st = "fst (handle_message e st msg)"
  have h: "?st = st\<lparr>db := log_incoming e msg (db st),
              global_message_memory :=
                remember (global_message_memory st) (du_name (author msg) @ '': '' @ content msg)\<rparr>"
    using Suc.prems by (intro handle_plain) auto
  have "bot_user ?st = Some me" "length (global_message_memory ?st) + n \<le> 100"
    "length (global_message_memory ?st) = Suc (length (global_message_memory st))"
    "requests ?st = requests st"
    using Suc.prems by (simp_all add: h length_remember)
  with Suc.IH[of ?st] Suc.prems(2,3) show ?case by simp
qed

lemma ninety_nine_plain:
  "bot_user (run (replicate 99 (calm_env, plain_message)) fresh_state) = Some floppa \<and>
   length (global_message_memory (run (replicate 99 (calm_env, plain_message)) fresh_state)) = 99 \<and>
   requests (run (replicate 99 (calm_env, plain_message)) fresh_state) = []"
  using run_plain[of fresh_state floppa plain_message 99 calm_env]
  by (simp add: fresh_state_def floppa_def plain_message_def alice_def)

text \<open>
  C2. The claim is that the memory never holds more than 100 lines. On the code the
  reply of the bot is appended without the check that follows the append of a user
  message: after 99 plain messages and one message that mentions the bot and is answered,
  the memory holds 101 lines.
\<close>

theorem memory_exceeds_capacity:
  "length (global_message_memory
     (run (replicate 99 (calm_env, plain_message) @ [(calm_env, mention_message)])
        fresh_state)) = 101"
proof -
  let ?s = "run (replicate 99 (calm_env, plain_message)) fresh_state"
  have b: "handle_message calm_env ?s mention_message =
      generate_response calm_env
        (?s\<lparr>db := log_incoming calm_env mention_message (db ?s),
            global_message_memory :=
              remember (global_message_memory ?s)
                (du_name (author mention_message) @ '': '' @ content mention_message)\<rparr>)
        mention_message"
    using ninety_nine_plain
    by (intro handle_mention[where me = floppa])
       (simp_all add: floppa_def mention_message_def alice_def)
  show ?thesis
    unfolding run_append
    apply (simp add: b)
    apply (subst generate_reply[where me = floppa and reply = "''meow''" and c = 5])
    using ninety_nine_plain
        apply (simp_all add: calm_env_def mention_message_def length_remember)
    done
qed

lemma suffix_directive: "suffix (directive t a) (instruction t a c p)"
  by (simp add: instruction_def suffix_def)

lemma mention_step:
  assumes "bot_user st = Some me" "du_id (author msg) \<noteq> du_id me" "mentions_bot msg"
    "completion e = Inr reply" "channel msg = Some c" "\<not> send_reply_raises e"
  defines "n \<equiv> length (remember (global_message_memory st)
                      (du_name (author msg) @ '': '' @ content msg))"
  shows "bot_user (fst (handle_message e st msg)) = Some me"
    and "length (global_message_memory (fst (handle_message e st msg))) = Suc n"
    and "\<exists>ctx. requests (fst (handle_message e st msg)) =
           requests st @ [(instruction (tone_of_counter n) (du_name (author msg)) ctx
                             (bot_personality st), clean_message (du_id me) (content msg))]"
proof -
  let ?st1 = "st\<lparr>db := log_incoming e msg (db st),
                 global_message_memory :=
                   remember (global_message_memory st)
                     (du_name (author msg) @ '': '' @ content msg)\<rparr>"
  have h: "handle_message e st msg = generate_response e ?st1 msg"
    using assms(1-3) by (rule handle_mention)
  have g: "generate_response e ?st1 msg =
     (?st1\<lparr>requests := requests ?st1 @
            [(build_prompt ?st1 (du_name (author msg)) (clean_message (du_id me) (content msg))
                (join [nl] (context_lines e ?st1 msg)),
              clean_message (du_id me) (content msg))],
         sent := sent ?st1 @ [(Some c, strip reply)],
         global_message_memory := global_message_memory ?st1 @ [''Bot: '' @ strip reply],
         db := log_reply e me msg (strip reply) (db ?st1)\<rparr>, None)"
    using assms(1,4-6) by (intro generate_reply) simp_all
  show "bot_user (fst (handle_message e st msg)) = Some me"
    unfolding h g by (simp add: assms(1))
  show "length (global_message_memory (fst (handle_message e st msg))) = Suc n"
    unfolding h g by (simp add: n_def)
  show "\<exists>ctx. requests (fst (handle_message e st msg)) =
           requests st @ [(instruction (tone_of_counter n) (du_name (author msg)) ctx
                             (bot_personality st), clean_message (du_id me) (content msg))]"
    unfolding h g by (simp add: n_def build_prompt_instruction) blast
qed

lemma handle_keeps:
  "bot_user (fst (handle_message e st msg)) = bot_user st \<and>
   bot_personality (fst (handle_message e st msg)) = bot_personality st"
  by (simp add: handle_message_def generate_response_def apologise_def channel_send_def Let_def
      split: option.splits sum.splits)

lemma run_keeps:
  "bot_user (run events st) = bot_user st \<and> bot_personality (run events st) = bot_personality st"
  by (induction events arbitrary: st) (auto simp: handle_keeps)

lemma hundredth_message:
  "bot_user saturated_state = Some floppa \<and>
   bot_personality saturated_state = ''I am Big Floppa.'' \<and>
   length (global_message_memory saturated_state) = 101 \<and>
   (\<exists>ctx. requests saturated_state =
      [(instruction Refreshed ''Alice'' ctx ''I am Big Floppa.'', clean_message 123 ''<@123> hi'')])"
proof -
  let ?s = "run (replicate 99 (calm_env, plain_message)) fresh_state"
  have s: "saturated_state = fst (handle_message calm_env ?s mention_message)"
    by (simp add: saturated_state_def run_append)
  have k: "bot_user saturated_state = Some floppa"
    "bot_personality saturated_state = ''I am Big Floppa.''"
    "bot_personality ?s = ''I am Big Floppa.''"
    by (simp_all add: saturated_state_def run_keeps fresh_state_def)
  have n: "length (remember (global_message_memory ?s)
             (du_name (author mention_message) @ '': '' @ content mention_message)) = 100"
    using ninety_nine_plain by (simp add: length_remember)
  have pre: "bot_user ?s = Some floppa" "du_id (author mention_message) \<noteq> du_id floppa"
    "mentions_bot mention_message" "completion calm_env = Inr ''meow''"
    "channel mention_message = Some 5" "\<not> send_reply_raises calm_env"
    using ninety_nine_plain
    by (simp_all add: mention_message_def alice_def floppa_def calm_env_def)
  have "length (global_message_memory saturated_state) = 101"
    unfolding s using mention_step(2)[OF pre] n by simp
  moreover have "\<exists>ctx. requests saturated_state =
      [(instruction Refreshed ''Alice'' ctx ''I am Big Floppa.'', clean_message 123 ''<@123> hi'')]"
    unfolding s using mention_step(3)[OF pre] n ninety_nine_plain k(3)
    by (simp add: tone_of_counter_def mention_message_def alice_def floppa_def)
  ultimately show ?thesis using k by simp
qed

text \<open>
  C3. The claim is that once the memory has reached 100 lines the counter stays at 100
  and every later instruction is the Refreshed one. On the code the hundredth message is
  answered with the Refreshed instruction, the reply makes the memory 101 lines long, and
  the next message that mentions the bot is answered with the Irritated instruction,
  built at the counter 101.
\<close>

theorem tone_after_saturation:
  "length (global_message_memory saturated_state) = 101 \<and>
   map (\<lambda>r. suffix ''Stay in character.'' (fst r))
     (requests (run [(calm_env, mention_message)] saturated_state)) = [True, False] \<and>
   map (\<lambda>r. suffix ''with a slightly irritated tone.'' (fst r))
     (requests (run [(calm_env, mention_message)] saturated_state)) = [False, True]"
proof -
  have pre: "bot_user saturated_state = Some floppa"
    "du_id (author mention_message) \<noteq> du_id floppa"
    "mentions_bot mention_message" "completion calm_env = Inr ''meow''"
    "channel mention_message = Some 5" "\<not> send_reply_raises calm_env"
    using hundredth_message
    by (simp_all add: mention_message_def alice_def floppa_def calm_env_def)
  have n: "length (remember (global_message_memory saturated_state)
             (du_name (author mention_message) @ '': '' @ content mention_message)) = 101"
    using hundredth_message by (simp add: length_remember)
  obtain c1 c2 where r: "requests (fst (handle_message calm_env saturated_state mention_message)) =
     [(instruction Refreshed ''Alice'' c1 ''I am Big Floppa.'', clean_message 123 ''<@123> hi''),
      (instruction Irritated ''Alice'' c2 ''I am Big Floppa.'', clean_message 123 ''<@123> hi'')]"
    using mention_step(3)[OF pre] n hundredth_message
    by (auto simp: tone_of_counter_def mention_message_def alice_def floppa_def)
  have a: "suffix ''Stay in character.'' (instruction Refreshed ''Alice'' c1 ''I am Big Floppa.'')"
    "suffix ''with a slightly irritated tone.'' (instruction Irritated ''Alice'' c2 ''I am Big Floppa.'')"
    by (simp_all add: instruction_def directive_def suffix_def)
  have b: "\<not> suffix ''with a slightly irritated tone.'' (instruction Refreshed ''Alice'' c1 ''I am Big Floppa.'')"
    "\<not> suffix ''Stay in character.'' (instruction Irritated ''Alice'' c2 ''I am Big Floppa.'')"
    by (simp_all add: instruction_def directive_def suffix_to_prefix)
  show ?thesis using hundredth_message a b by (simp add: r)
qed

subsection \<open>The context, the apology and the frame\<close>

lemma last_items_tail:
  "length (last_items k xs) = min k (length xs) \<and> suffix (last_items k xs) xs"
  by (auto simp: last_items_def suffix_drop)

text \<open>
  C4. For a message of a channel, the context is the transcript that the store returns
  for the channel whenever the read does not raise and the transcript is not empty, and
  it is the last 100 lines of the memory (all of them when there are fewer) whenever the
  read raises or returns nothing.
\<close>

theorem context_assembler:
  assumes "channel msg = Some c"
  shows "(\<not> db_read_raises e \<and> get_recent_messages_for_channel (db st) c 100 \<noteq> [] \<longrightarrow>
            context_lines e st msg = get_recent_messages_for_channel (db st) c 100) \<and>
         (db_read_raises e \<or> get_recent_messages_for_channel (db st) c 100 = [] \<longrightarrow>
            context_lines e st msg = last_items 100 (global_message_memory st) \<and>
            length (context_lines e st msg) = min 100 (length (global_message_memory st)) \<and>
            suffix (context_lines e st msg) (global_message_memory st))"
  using assms last_items_tail[of 100 "global_message_memory st"]
  by (auto simp: context_lines_def Let_def)

theorem context_assembler_witness:
  "context_lines calm_env logged_state mention_message = [''Alice: hello''] \<and>
   context_lines (calm_env\<lparr>db_read_raises := True\<rparr>) logged_state mention_message =
     [''Bob: hey'', ''Alice: hello''] \<and>
   context_lines calm_env (logged_state\<lparr>db := db fresh_state\<rparr>) mention_message =
     [''Bob: hey'', ''Alice: hello'']"
proof -
  have c: "channel mention_message = Some 5" by (simp add: mention_message_def)
  have g: "get_recent_messages_for_channel (db logged_state) 5 100 = [''Alice: hello'']"
    by (simp add: get_recent_messages_for_channel_def select_recent_def channel_rows_def
        logged_state_def log_message_def fresh_state_def render_row_def flag_def)
  have g0: "get_recent_messages_for_channel (db (logged_state\<lparr>db := db fresh_state\<rparr>)) 5 100 = []"
    by (simp add: get_recent_messages_for_channel_def select_recent_def channel_rows_def
        fresh_state_def)
  have m: "last_items 100 (global_message_memory logged_state) = [''Bob: hey'', ''Alice: hello'']"
    by (simp add: last_items_def logged_state_def)
  show ?thesis
    using context_assembler[OF c, of calm_env logged_state]
      context_assembler[OF c, of "calm_env\<lparr>db_read_raises := True\<rparr>" logged_state]
      context_assembler[OF c, of calm_env "logged_state\<lparr>db := db fresh_state\<rparr>"]
      g g0 m
    by (simp add: calm_env_def)
qed

text \<open>
  C9. \<open>_build_prompt\<close> reads neither its \<open>message_content\<close> parameter nor the lines of
  the memory, only their number: two states whose memories have the same length and whose
  persona is the same give, for the same author name and the same context, the same
  instruction, whatever the two message texts are.
\<close>

theorem prompt_ignores_message_content:
  assumes "length (global_message_memory st) = length (global_message_memory st')"
    and "bot_personality st = bot_personality st'"
  shows "build_prompt st author_name message_content context =
         build_prompt st' author_name message_content' context"
  using assms by (simp add: build_prompt_instruction)

theorem prompt_ignores_message_content_witness:
  "global_message_memory heard_hi \<noteq> global_message_memory heard_bye \<and>
   build_prompt heard_hi ''Alice'' ''hi'' ''Bob: hey'' =
   build_prompt heard_bye ''Alice'' ''bye'' ''Bob: hey''"
proof -
  have l: "length (global_message_memory heard_hi) = length (global_message_memory heard_bye)"
    by (simp add: heard_hi_def heard_bye_def length_remember)
  have p: "bot_personality heard_hi = bot_personality heard_bye"
    by (simp add: heard_hi_def heard_bye_def)
  have d: "global_message_memory heard_hi \<noteq> global_message_memory heard_bye"
    by (simp add: heard_hi_def heard_bye_def remember_def fresh_state_def)
  from d prompt_ignores_message_content[OF l p] show ?thesis by simp
qed

text \<open>
  C10. A message whose author is the bot itself leaves the whole state as it was: users
  and messages of the store, the memory, what was sent to channels and what was asked of
  the completion API; and nothing is raised.
\<close>

theorem own_message_ignored:
  assumes "bot_user st = Some me" "du_id (author msg) = du_id me"
  shows "handle_message e st msg = (st, None)"
  using assms by (simp add: handle_message_def)

theorem own_message_ignored_witness:
  "handle_message calm_env logged_state (mention_message\<lparr>author := floppa\<rparr>) = (logged_state, None)"
  by (rule own_message_ignored[where me = floppa]) (simp_all add: logged_state_def fresh_state_def)

text \<open>
  C5, as stated, at a completion failure whose apology cannot be delivered: the exception
  of \<open>channel.send\<close> in the handler leaves \<open>_generate_response\<close>, the channel receives
  nothing and the memory gains no line.
\<close>

theorem apology_counterexample:
  "snd (generate_response broken_env fresh_state mention_message) = Some SendError \<and>
   sent (fst (generate_response broken_env fresh_state mention_message)) = [] \<and>
   global_message_memory (fst (generate_response broken_env fresh_state mention_message)) = []"
  by (simp add: generate_response_def apologise_def channel_send_def Let_def broken_env_def
      failing_env_def calm_env_def fresh_state_def mention_message_def)

text \<open>
  C5, amended. Whenever the completion call raises, the store is left as it was. If the
  delivery of the apology succeeds, nothing is raised, the channel receives exactly the
  fixed apology and the memory gains exactly the line \<open>Bot: <apology>\<close>. If the message
  has no channel or the delivery raises, that exception leaves the handler and neither
  the channel nor the memory gains anything.
\<close>

theorem apology_on_completion_failure:
  assumes "bot_user st = Some me" "completion e = Inl err"
  shows "db (fst (generate_response e st msg)) = db st \<and>
         (channel msg = Some c \<and> \<not> send_apology_raises e \<longrightarrow>
            snd (generate_response e st msg) = None \<and>
            sent (fst (generate_response e st msg)) = sent st @ [(Some c, error_message)] \<and>
            global_message_memory (fst (generate_response e st msg)) =
              global_message_memory st @ [''Bot: '' @ error_message]) \<and>
         (channel msg = None \<or> send_apology_raises e \<longrightarrow>
            snd (generate_response e st msg) \<noteq> None \<and>
            sent (fst (generate_response e st msg)) = sent st \<and>
            global_message_memory (fst (generate_response e st msg)) = global_message_memory st)"
  using assms
  by (auto simp: generate_response_def apologise_def channel_send_def Let_def
      split: option.splits)

theorem apology_on_completion_failure_witness:
  "db (fst (generate_response failing_env fresh_state mention_message)) = db fresh_state \<and>
   snd (generate_response failing_env fresh_state mention_message) = None \<and>
   sent (fst (generate_response failing_env fresh_state mention_message)) =
     [(Some 5, ''Sorry, there was an error processing your request.'')] \<and>
   global_message_memory (fst (generate_response failing_env fresh_state mention_message)) =
     [''Bot: Sorry, there was an error processing your request.'']"
  using apology_on_completion_failure[of fresh_state floppa failing_env ApiError mention_message 5]
  by (simp add: fresh_state_def failing_env_def calm_env_def mention_message_def error_message_def)

subsection \<open>The transcript of a channel\<close>

lemma split_sorted:
  fixes rows :: "msg_row list"
  shows "sorted (map m_ts (drop k (sort_key m_ts rows))) \<and>
         (\<forall>old \<in> set (take k (sort_key m_ts rows)).
            \<forall>r \<in> set (drop k (sort_key m_ts rows)). m_ts old \<le> m_ts r) \<and>
         mset (take k (sort_key m_ts rows)) + mset (drop k (sort_key m_ts rows)) = mset rows"
proof -
  let ?s = "sort_key m_ts rows"
  have "sorted (map m_ts (take k ?s @ drop k ?s))" by simp
  then have "sorted (map m_ts (take k ?s) @ map m_ts (drop k ?s))"
    unfolding map_append[symmetric] by simp
  then have a: "sorted (map m_ts (drop k ?s))"
    and b: "\<forall>x \<in> set (map m_ts (take k ?s)). \<forall>y \<in> set (map m_ts (drop k ?s)). x \<le> y"
    unfolding sorted_append by auto
  have "mset (take k ?s @ drop k ?s) = mset rows" by simp
  then have m: "mset (take k ?s) + mset (drop k ?s) = mset rows"
    unfolding mset_append .
  from b have b': "\<forall>old \<in> set (take k ?s). \<forall>r \<in> set (drop k ?s). m_ts old \<le> m_ts r"
    by simp
  from a b' m show ?thesis by (intro conjI)
qed

lemma select_recent_drop:
  assumes "0 \<le> limit"
  shows "rev (select_recent tbl c limit) =
           drop (length (channel_rows tbl c) - nat limit) (sort_key m_ts (channel_rows tbl c))"
  using assms by (simp add: select_recent_def Let_def take_rev)

lemma render_logged:
  "render_row (last (messages (log_message d ts uid name g ch mid is_bot text))) =
     (if is_bot then ''Bot'' else name) @ '': '' @ text"
  by (simp add: log_message_def render_row_def flag_def)

text \<open>
  C6. For a limit that is a row count (not negative), \<open>get_recent_messages_for_channel\<close>
  returns \<open>min limit n\<close> lines, where \<open>n\<close> is the number of rows of the channel: the
  rendering of the \<open>limit\<close> rows of that channel with the greatest timestamps (no row
  left out is newer than a row kept), in ascending order of timestamp. A row renders as
  \<open><username>: <content>\<close>, with the label \<open>Bot\<close> for the user name when the row is
  flagged as the bot's.
\<close>

theorem recent_transcript:
  assumes "0 \<le> limit"
  shows "let rows = channel_rows (messages d) c;
             k = length rows - nat limit;
             older = take k (sort_key m_ts rows);
             kept = drop k (sort_key m_ts rows)
         in get_recent_messages_for_channel d c limit = map render_row kept \<and>
            length (get_recent_messages_for_channel d c limit) = min (nat limit) (length rows) \<and>
            set rows = {r \<in> set (messages d). m_channel_id r = Some c} \<and>
            mset older + mset kept = mset rows \<and>
            sorted (map m_ts kept) \<and>
            (\<forall>old \<in> set older. \<forall>r \<in> set kept. m_ts old \<le> m_ts r) \<and>
            (\<forall>r. render_row r =
               (if m_is_bot r \<noteq> 0 then ''Bot'' else m_username r) @ '': '' @ m_content r) \<and>
            (\<forall>ts uid name g ch mid is_bot text.
               render_row (last (messages (log_message d ts uid name g ch mid is_bot text))) =
                 (if is_bot then ''Bot'' else name) @ '': '' @ text)"
proof -
  let ?rows = "channel_rows (messages d) c"
  let ?k = "length ?rows - nat limit"
  have g: "get_recent_messages_for_channel d c limit =
             map render_row (drop ?k (sort_key m_ts ?rows))"
    by (simp add: get_recent_messages_for_channel_def select_recent_drop[OF assms])
  have l: "length (get_recent_messages_for_channel d c limit) = min (nat limit) (length ?rows)"
    unfolding g by simp
  have s: "set ?rows = {r \<in> set (messages d). m_channel_id r = Some c}"
    by (simp add: channel_rows_def)
  show ?thesis
    unfolding Let_def using g l s split_sorted[of ?k ?rows] render_logged
    by (simp add: render_row_def)
qed

theorem recent_transcript_witness:
  "get_recent_messages_for_channel two_channels 5 2 = [''Bot: second'', ''Alice: third''] \<and>
   get_recent_messages_for_channel two_channels 5 100 =
     [''Bob: first'', ''Bot: second'', ''Alice: third'']"
proof -
  have r: "channel_rows (messages two_channels) 5 =
     [\<lparr>m_ts = 30, m_user_id = Some 7, m_username = ''Alice'', m_guild_id = None,
       m_channel_id = Some 5, m_message_id = Some 1, m_is_bot = 0, m_content = ''third''\<rparr>,
      \<lparr>m_ts = 10, m_user_id = Some 8, m_username = ''Bob'', m_guild_id = None,
       m_channel_id = Some 5, m_message_id = Some 2, m_is_bot = 0, m_content = ''first''\<rparr>,
      \<lparr>m_ts = 20, m_user_id = Some 123, m_username = ''Floppa'', m_guild_id = None,
       m_channel_id = Some 5, m_message_id = None, m_is_bot = 1, m_content = ''second''\<rparr>]"
    by (simp add: two_channels_def channel_rows_def log_message_def fresh_state_def flag_def)
  have a: "(0::int) \<le> 2" "(0::int) \<le> 100" by simp_all
  show ?thesis
    using recent_transcript[OF a(1), of two_channels 5] recent_transcript[OF a(2), of two_channels 5]
    by (simp add: Let_def r render_row_def)
qed

subsection \<open>Participants\<close>

lemma flag_range: "flag b = 0 \<or> flag b = 1"
  by (simp add: flag_def)

lemma upsert_absent:
  assumes "users d uid = None"
  shows "users (upsert_user d uid name disc is_bot ts inc_msg inc_men) uid =
     Some \<lparr>u_username = name, u_discriminator = disc, u_is_bot = flag is_bot,
           u_first_seen_at = ts, u_last_seen_at = ts,
           u_message_count = flag inc_msg, u_mention_count = flag inc_men\<rparr>"
  using assms by (simp add: upsert_user_def)

lemma upsert_present:
  assumes "users d uid = Some row"
  shows "users (upsert_user d uid name disc is_bot ts inc_msg inc_men) uid =
     Some \<lparr>u_username = name, u_discriminator = disc, u_is_bot = flag is_bot,
           u_first_seen_at = u_first_seen_at row, u_last_seen_at = ts,
           u_message_count = u_message_count row + flag inc_msg,
           u_mention_count = u_mention_count row + flag inc_men\<rparr>"
  using assms by (simp add: upsert_user_def)

lemma upsert_frame:
  "messages (upsert_user d uid name disc is_bot ts inc_msg inc_men) = messages d \<and>
   (\<forall>other. other \<noteq> uid \<longrightarrow>
      users (upsert_user d uid name disc is_bot ts inc_msg inc_men) other = users d other)"
  by (simp add: upsert_user_def split: option.splits)

text \<open>
  C7. \<open>upsert_user\<close> creates the row of an unknown user, with both timestamps at the
  call's and the counters at the flags. For a known user it sets the name, the
  discriminator and the bot flag to the call's values and \<open>last_seen_at\<close> to the call's
  timestamp, keeps \<open>first_seen_at\<close>, and adds the flags (0 or 1 each) to the counters.
  Two calls with the same arguments but the timestamp add twice the flags. No other user
  and no message is touched.
\<close>

theorem record_participant:
  "(users d uid = None \<longrightarrow>
      users (upsert_user d uid name disc is_bot ts inc_msg inc_men) uid =
        Some \<lparr>u_username = name, u_discriminator = disc, u_is_bot = flag is_bot,
              u_first_seen_at = ts, u_last_seen_at = ts,
              u_message_count = flag inc_msg, u_mention_count = flag inc_men\<rparr>) \<and>
   (users d uid = Some row \<longrightarrow>
      users (upsert_user d uid name disc is_bot ts inc_msg inc_men) uid =
        Some \<lparr>u_username = name, u_discriminator = disc, u_is_bot = flag is_bot,
              u_first_seen_at = u_first_seen_at row, u_last_seen_at = ts,
              u_message_count = u_message_count row + flag inc_msg,
              u_mention_count = u_mention_count row + flag inc_men\<rparr>) \<and>
   (users d uid = Some row \<longrightarrow>
      users (upsert_user (upsert_user d uid name disc is_bot ts inc_msg inc_men)
               uid name disc is_bot ts' inc_msg inc_men) uid =
        Some \<lparr>u_username = name, u_discriminator = disc, u_is_bot = flag is_bot,
              u_first_seen_at = u_first_seen_at row, u_last_seen_at = ts',
              u_message_count = u_message_count row + 2 * flag inc_msg,
              u_mention_count = u_mention_count row + 2 * flag inc_men\<rparr>) \<and>
   (users d uid = None \<longrightarrow>
      users (upsert_user (upsert_user d uid name disc is_bot ts inc_msg inc_men)
               uid name disc is_bot ts' inc_msg inc_men) uid =
        Some \<lparr>u_username = name, u_discriminator = disc, u_is_bot = flag is_bot,
              u_first_seen_at = ts, u_last_seen_at = ts',
              u_message_count = 2 * flag inc_msg,
              u_mention_count = 2 * flag inc_men\<rparr>) \<and>
   flag inc_msg \<in> {0, 1} \<and> flag inc_men \<in> {0, 1} \<and>
   messages (upsert_user d uid name disc is_bot ts inc_msg inc_men) = messages d \<and>
   (\<forall>other. other \<noteq> uid \<longrightarrow>
      users (upsert_user d uid name disc is_bot ts inc_msg inc_men) other = users d other)"
proof -
  let ?d1 = "upsert_user d uid name disc is_bot ts inc_msg inc_men"
  have two_present: "users (upsert_user ?d1 uid name disc is_bot ts' inc_msg inc_men) uid =
        Some \<lparr>u_username = name, u_discriminator = disc, u_is_bot = flag is_bot,
              u_first_seen_at = u_first_seen_at row, u_last_seen_at = ts',
              u_message_count = u_message_count row + 2 * flag inc_msg,
              u_mention_count = u_mention_count row + 2 * flag inc_men\<rparr>"
    if "users d uid = Some row"
    using upsert_present[OF upsert_present[OF that]] by simp
  have two_absent: "users (upsert_user ?d1 uid name disc is_bot ts' inc_msg inc_men) uid =
        Some \<lparr>u_username = name, u_discriminator = disc, u_is_bot = flag is_bot,
              u_first_seen_at = ts, u_last_seen_at = ts',
              u_message_count = 2 * flag inc_msg,
              u_mention_count = 2 * flag inc_men\<rparr>"
    if "users d uid = None"
    using upsert_present[OF upsert_absent[OF that]] by simp
  have f: "flag inc_msg \<in> {0, 1}" "flag inc_men \<in> {0, 1}"
    by (simp_all add: flag_def)
  show ?thesis
    using upsert_absent[of d uid] upsert_present[of d uid row] two_present two_absent f
      upsert_frame[of d uid name disc is_bot ts inc_msg inc_men]
    by (intro conjI impI) blast+
qed

theorem record_participant_witness:
  "users (upsert_user (upsert_user (db fresh_state) 7 ''Alice'' None False 10 True False)
            7 ''Alice'' None False 20 True False) 7 =
     Some \<lparr>u_username = ''Alice'', u_discriminator = None, u_is_bot = 0,
           u_first_seen_at = 10, u_last_seen_at = 20,
           u_message_count = 2, u_mention_count = 0\<rparr> \<and>
   users (upsert_user (upsert_user (db fresh_state) 7 ''Alice'' None False 10 True False)
            7 ''Alice S.'' None False 30 True True) 7 =
     Some \<lparr>u_username = ''Alice S.'', u_discriminator = None, u_is_bot = 0,
           u_first_seen_at = 10, u_last_seen_at = 30,
           u_message_count = 2, u_mention_count = 1\<rparr>"
proof -
  have a: "users (db fresh_state) 7 = None" by (simp add: fresh_state_def)
  have b: "users (upsert_user (db fresh_state) 7 ''Alice'' None False 10 True False) 7 =
     Some \<lparr>u_username = ''Alice'', u_discriminator = None, u_is_bot = 0,
           u_first_seen_at = 10, u_last_seen_at = 10,
           u_message_count = 1, u_mention_count = 0\<rparr>"
    using record_participant[where d = "db fresh_state" and uid = 7 and name = "''Alice''"
        and disc = None and is_bot = False and ts = 10 and inc_msg = True and inc_men = False] a
    by (simp add: flag_def)
  show ?thesis
    using record_participant[where d = "db fresh_state" and uid = 7 and name = "''Alice''"
        and disc = None and is_bot = False and ts = 10 and inc_msg = True and inc_men = False
        and ts' = 20] a
      record_participant[where
        d = "upsert_user (db fresh_state) 7 ''Alice'' None False 10 True False" and uid = 7
        and row = "\<lparr>u_username = ''Alice'', u_discriminator = None, u_is_bot = 0,
           u_first_seen_at = 10, u_last_seen_at = 10,
           u_message_count = 1, u_mention_count = 0\<rparr>" and name = "''Alice S.''"
        and disc = None and is_bot = False and ts = 30 and inc_msg = True and inc_men = True] b
    by (simp add: flag_def)
qed

subsection \<open>Stripping the mention\<close>

lemma prefix_harmless: "prefix a s \<Longrightarrow> \<not> harmless a s"
proof (induction a arbitrary: s)
  case Nil
  then show ?case by simp
next
  case (Cons a rest)
  then show ?case by (cases s) auto
qed

lemma replace_from_other:
  "x \<noteq> lt \<Longrightarrow> replace_from (lt # tt) new (x # xs) = x # replace_from (lt # tt) new xs"
  by simp

lemma replace_from_pass:
  "lt \<notin> set u \<Longrightarrow> replace_from (lt # tt) new (u @ v) = u @ replace_from (lt # tt) new v"
  by (induction u) auto

lemma harmless_replace:
  "harmless a cs \<Longrightarrow> harmless a (replace_from (lt # tt) [] cs)"
proof (induction a cs rule: harmless.induct)
  case (1 s)
  then show ?case by simp
next
  case (2 a rest)
  then show ?case by simp
next
  case (3 a rest x xs)
  then show ?case by (auto split: if_splits)
qed

lemma guarded_drop: "guarded S Ts s \<Longrightarrow> guarded S Ts (drop n s)"
proof (induction s arbitrary: n)
  case Nil
  then show ?case by simp
next
  case (Cons c cs)
  then show ?case by (cases n) auto
qed

lemma guarded_pass:
  assumes "lt \<notin> set tt"
    and "\<forall>t \<in> set S. \<exists>b. t = lt # b \<and> lt \<notin> set b"
    and "guarded ((lt # tt) # S) Ts s"
  shows "guarded S Ts (replace_from (lt # tt) [] s)"
  using assms(3)
proof (induction "lt # tt" "[] :: string" s rule: replace_from.induct)
  case 1
  then show ?case by simp
next
  case (2 c cs)
  show ?case
  proof (cases "prefix (lt # tt) (c # cs)")
    case True
    have "guarded ((lt # tt) # S) Ts (drop (length (lt # tt)) (c # cs))"
      using "2.prems" by (rule guarded_drop)
    with True "2.hyps"(1) show ?thesis by simp
  next
    case False
    have rest: "guarded S Ts (replace_from (lt # tt) [] cs)"
      using False "2.hyps"(2) "2.prems" by simp
    have out: "replace_from (lt # tt) [] (c # cs) = c # replace_from (lt # tt) [] cs"
      using False by auto
    show ?thesis
    proof (cases "c = lt")
      case c: True
      from "2.prems" c False
      consider t where "t \<in> set S" "prefix t (c # cs)"
        | "list_all (\<lambda>t. harmless (tl t) cs) Ts"
        by (auto simp: list_ex_iff)
      then show ?thesis
      proof cases
        case 1
        then obtain b where b: "t = lt # b" "lt \<notin> set b" using assms(2) by blast
        with 1(2) c obtain r where r: "cs = b @ r" by (auto simp: prefix_def)
        have "replace_from (lt # tt) [] cs = b @ replace_from (lt # tt) [] r"
          unfolding r using b(2) by (rule replace_from_pass)
        then have "prefix t (c # replace_from (lt # tt) [] cs)"
          using b(1) c by simp
        with 1(1) rest show ?thesis
          unfolding out by (auto simp: list_ex_iff)
      next
        case 2
        then have "list_all (\<lambda>t. harmless (tl t) (replace_from (lt # tt) [] cs)) Ts"
          by (auto simp: list_all_iff intro: harmless_replace)
        with rest show ?thesis unfolding out by simp
      qed
    next
      case c: False
      with rest show ?thesis unfolding out by simp
    qed
  qed
qed

lemma guarded_no_form:
  assumes "guarded [] Ts s" "lt # tt \<in> set Ts"
  shows "\<not> sublist (lt # tt) s"
  using assms(1)
proof (induction s)
  case Nil
  then show ?case by simp
next
  case (Cons c cs)
  have "\<not> prefix (lt # tt) (c # cs)"
  proof
    assume p: "prefix (lt # tt) (c # cs)"
    then have "c = lt" "prefix tt cs" by simp_all
    moreover from Cons.prems \<open>c = lt\<close> assms(2) have "harmless tt cs"
      by (auto simp: list_all_iff)
    ultimately show False using prefix_harmless by blast
  qed
  with Cons show ?case by (simp add: sublist_Cons_right)
qed

lemma sublist_strip: "sublist (strip s) s"
proof -
  have "sublist (rev (strip s)) (rev s)"
    unfolding strip_def rev_rev_ident
    by (meson sublist_dropWhile sublist_order.order_trans sublist_rev_left sublist_rev_right sublist_rev)
  then show ?thesis by simp
qed


lemma digit_char_not_lt: "d < 10 \<Longrightarrow> digit_char d \<noteq> lt"
proof -
  assume "d < 10"
  then have "d \<in> {0, 1, 2, 3, 4, 5, 6, 7, 8, 9}" by auto
  then show ?thesis by (auto simp: digit_char_def lt_def)
qed

lemma str_nat_no_lt: "lt \<notin> set (str_nat n)"
proof (induction n rule: str_nat.induct)
  case (1 n)
  show ?case
  proof (cases "n < 10")
    case True
    then show ?thesis
      using digit_char_not_lt[of n] by (subst str_nat.simps) auto
  next
    case False
    have "n mod 10 < 10" by simp
    then have "digit_char (n mod 10) \<noteq> lt" by (rule digit_char_not_lt)
    with False 1 show ?thesis by (subst str_nat.simps) auto
  qed
qed

lemma str_int_no_lt: "lt \<notin> set (str_int i)"
  using str_nat_no_lt by (auto simp: str_int_def lt_def)

lemma mention_forms:
  "mention_plain i = lt # (''@'' @ str_int i @ ''>'')"
  "mention_nick i = lt # (''@!'' @ str_int i @ ''>'')"
  "lt \<notin> set (''@'' @ str_int i @ ''>'')"
  "lt \<notin> set (''@!'' @ str_int i @ ''>'')"
  using str_int_no_lt[of i] by (auto simp: mention_plain_def mention_nick_def lt_def)

lemma clean_message_no_markup:
  assumes "well_nested i s"
  shows "\<not> sublist (mention_plain i) (clean_message i s) \<and>
         \<not> sublist (mention_nick i) (clean_message i s)"
proof -
  let ?A = "mention_plain i" and ?B = "mention_nick i"
  let ?p1 = "replace_from ?A [] s"
  let ?p2 = "replace_from ?B [] ?p1"
  have c: "clean_message i s = strip ?p2"
    by (simp add: clean_message_def str_replace_def mention_forms)
  have g0: "guarded [?A, ?B] [?A, ?B] s"
    using assms by (simp add: well_nested_def)
  have g1: "guarded [?B] [?A, ?B] ?p1"
    unfolding mention_forms(1)
    by (rule guarded_pass) (use g0 mention_forms[of i] in auto)
  have g2: "guarded [] [?A, ?B] ?p2"
    unfolding mention_forms(2)
    by (rule guarded_pass) (use g1 mention_forms[of i] in auto)
  have "\<not> sublist ?A ?p2" "\<not> sublist ?B ?p2"
    using guarded_no_form[OF g2, of "''@'' @ str_int i @ ''>''"]
      guarded_no_form[OF g2, of "''@!'' @ str_int i @ ''>''"] mention_forms(1,2)[of i]
    by simp_all
  moreover have "sublist (strip ?p2) ?p2" by (rule sublist_strip)
  ultimately show ?thesis
    unfolding c using sublist_order.order_trans by blast
qed

text \<open>
  C8, as stated, at the message text \<open><@<@123>123>\<close> for the bot 123: removing the inner
  occurrence joins the text around it, which is not scanned again, and the user content
  sent to the completion API is the mention \<open><@123>\<close> itself.
\<close>

theorem mention_survives_stripping:
  "map snd (requests (fst (generate_response calm_env fresh_state nested_message))) =
     [''<@123>''] \<and>
   mention_plain (du_id floppa) = ''<@123>''"
proof -
  have i: "str_int 123 = ''123''"
    by (simp add: str_int_def str_nat.simps digit_char_def)
  have c: "clean_message 123 ''<@<@123>123>'' = ''<@123>''"
    by (simp add: clean_message_def str_replace_def mention_plain_def mention_nick_def i
        strip_def isspace_def)
  have b: "bot_user fresh_state = Some floppa" by (simp add: fresh_state_def)
  show ?thesis
    using generate_request[OF b, of calm_env nested_message] c
    by (simp add: nested_message_def floppa_def mention_plain_def i fresh_state_def)
qed

text \<open>
  C8, amended. The user content sent to the completion API is \<open>clean_message\<close> of the
  message text, and it contains neither form of the bot's mention whenever, in the
  message text, every \<open><\<close> either begins one of the two forms or is followed by text
  that departs from both forms, or ends, before the next \<open><\<close>.
\<close>

theorem mentions_stripped:
  assumes "bot_user st = Some me" "well_nested (du_id me) (content msg)"
  shows "map snd (requests (fst (generate_response e st msg))) =
           map snd (requests st) @ [clean_message (du_id me) (content msg)] \<and>
         \<not> sublist (mention_plain (du_id me)) (clean_message (du_id me) (content msg)) \<and>
         \<not> sublist (mention_nick (du_id me)) (clean_message (du_id me) (content msg))"
  using generate_request[OF assms(1), of e msg] clean_message_no_markup[OF assms(2)]
  by simp

theorem mentions_stripped_witness:
  "map snd (requests (fst (generate_response calm_env fresh_state busy_message))) =
     [''hi  there  <3 <@456>''] \<and>
   \<not> sublist ''<@123>'' ''hi  there  <3 <@456>'' \<and>
   \<not> sublist ''<@!123>'' ''hi  there  <3 <@456>''"
proof -
  have i: "str_int 123 = ''123''"
    by (simp add: str_int_def str_nat.simps digit_char_def)
  have b: "bot_user fresh_state = Some floppa" by (simp add: fresh_state_def)
  have w: "well_nested (du_id floppa) (content busy_message)"
    by (simp add: well_nested_def busy_message_def floppa_def mention_plain_def
        mention_nick_def i lt_def)
  have c: "clean_message (du_id floppa) (content busy_message) = ''hi  there  <3 <@456>''"
    by (simp add: clean_message_def str_replace_def mention_plain_def mention_nick_def i
        strip_def isspace_def busy_message_def floppa_def)
  show ?thesis
    using mentions_stripped[OF b w, of calm_env] c
    by (simp add: mention_plain_def mention_nick_def i floppa_def fresh_state_def)
qed

end
